theory Spec2Isabelle
  imports Complex_Main
begin

section \<open>The anonymous chat bot: data model\<close>

text \<open>
  The bot keeps its durable state in six SQLite tables (\<^verbatim>\<open>database.py\<close>) and its
  process-lifetime state in two Python dictionaries (\<^verbatim>\<open>bot.py\<close>). Each table is
  modelled by the rows it holds. Identifiers are Python integers, hence \<open>int\<close>.

  \<^item> \<^verbatim>\<open>users\<close>, \<^verbatim>\<open>limits\<close>: keyed by \<^verbatim>\<open>user_id\<close>, a map from the key to the row.
  \<^item> \<^verbatim>\<open>queue\<close>: the list of queued ids in the order in which they were inserted. The
    table itself does not store that order: its only column is declared
    \<^verbatim>\<open>user_id INTEGER PRIMARY KEY\<close>, and in SQLite such a column is the table's rowid.
    The list keeps the arrival order so that statements about arrival order can be
    written down; the queries read the rows the way SQLite does (see
    \<open>get_first_in_queue\<close>).
  \<^item> \<^verbatim>\<open>chats\<close>: the list of rows \<open>(user1_id, user2_id)\<close> in insertion order.
  \<^item> \<^verbatim>\<open>reports\<close>: the list of rows in insertion order.
  \<^item> \<^verbatim>\<open>blocks\<close>: the set of blocked ids.
  \<^item> \<open>journal\<close>: the write statements committed so far, oldest first. Every
    function of \<^verbatim>\<open>database.py\<close> that calls \<^verbatim>\<open>conn.commit()\<close> appends its statement,
    also when the statement changes no row.
  \<^item> \<^verbatim>\<open>last_messages\<close>, \<^verbatim>\<open>last_action_time\<close>: the two dictionaries of \<^verbatim>\<open>bot.py\<close>.
\<close>

record user_row =
  username :: "string option"
  first_name :: string
  last_name :: "string option"

record limit_row =
  used_count :: int
  reset_time :: int
  premium :: int

record report_row =
  reporter_id :: int
  reported_id :: int
  reason :: string
  timestamp :: int

datatype stmt =
    W_add_user int
  | W_add_to_queue int
  | W_remove_from_queue int
  | W_add_chat int int
  | W_remove_chat_by_users int int
  | W_add_report int int
  | W_block_user int
  | W_unblock_user int
  | W_update_limit int int int int

record state =
  users :: "int \<rightharpoonup> user_row"
  queue :: "int list"
  chats :: "(int \<times> int) list"
  reports :: "report_row list"
  blocks :: "int set"
  limits :: "int \<rightharpoonup> limit_row"
  journal :: "stmt list"
  last_messages :: "int \<rightharpoonup> (int \<times> int) list"
  last_action_time :: "(int \<times> string) \<rightharpoonup> real"

text \<open>The state after \<^verbatim>\<open>init_db()\<close> on a fresh database file, in a fresh process.\<close>

definition init_state :: state where
  "init_state =
     \<lparr>users = Map.empty, queue = [], chats = [], reports = [], blocks = {},
      limits = Map.empty, journal = [], last_messages = Map.empty,
      last_action_time = Map.empty\<rparr>"

datatype error = IntegrityError

text \<open>Python's truth test of a value that is \<^verbatim>\<open>None\<close> or an integer.\<close>

fun truthy :: "int option \<Rightarrow> bool" where
  "truthy None = False"
| "truthy (Some v) = (v \<noteq> 0)"

section \<open>database.py\<close>

subsection \<open>Users\<close>

definition add_user :: "int \<Rightarrow> user_row \<Rightarrow> state \<Rightarrow> state" where
  "add_user user_id row s =
     s\<lparr>users := (users s)(user_id \<mapsto> row), journal := journal s @ [W_add_user user_id]\<rparr>"

subsection \<open>Queue\<close>

text \<open>\<^verbatim>\<open>INSERT OR IGNORE\<close>: a row whose key is present is left alone.\<close>

definition add_to_queue :: "int \<Rightarrow> state \<Rightarrow> state" where
  "add_to_queue user_id s =
     s\<lparr>queue := (if user_id \<in> set (queue s) then queue s else queue s @ [user_id]),
       journal := journal s @ [W_add_to_queue user_id]\<rparr>"

definition remove_from_queue :: "int \<Rightarrow> state \<Rightarrow> state" where
  "remove_from_queue user_id s =
     s\<lparr>queue := removeAll user_id (queue s),
       journal := journal s @ [W_remove_from_queue user_id]\<rparr>"

text \<open>
  \<^verbatim>\<open>ORDER BY ROWID ASC LIMIT 1\<close>: the row with the least rowid. The rowid of a
  \<^verbatim>\<open>queue\<close> row is its \<^verbatim>\<open>user_id\<close>, so this is the least id among the selected rows.
\<close>

fun first_by_rowid :: "int list \<Rightarrow> int option" where
  "first_by_rowid [] = None"
| "first_by_rowid (x # xs) = Some (fold min xs x)"

text \<open>
  \<^verbatim>\<open>if exclude_user_id:\<close> is a truth test, so the \<^verbatim>\<open>WHERE user_id != ?\<close> clause is
  used only for an id that is neither \<^verbatim>\<open>None\<close> nor 0. The result is \<^verbatim>\<open>row[0]\<close> for
  any row found, also when that id is 0.
\<close>

definition get_first_in_queue :: "int option \<Rightarrow> state \<Rightarrow> int option" where
  "get_first_in_queue exclude_user_id s =
     (if truthy exclude_user_id
      then first_by_rowid (filter (\<lambda>u. Some u \<noteq> exclude_user_id) (queue s))
      else first_by_rowid (queue s))"

subsection \<open>Chats\<close>

text \<open>
  A plain \<^verbatim>\<open>INSERT\<close> into a table with \<^verbatim>\<open>PRIMARY KEY (user1_id, user2_id)\<close>: a row
  that is present already makes \<^verbatim>\<open>cur.execute\<close> raise, and nothing is committed.
\<close>

definition add_chat :: "int \<Rightarrow> int \<Rightarrow> state \<Rightarrow> error + state" where
  "add_chat user1_id user2_id s =
     (if (user1_id, user2_id) \<in> set (chats s) then Inl IntegrityError
      else Inr (s\<lparr>chats := chats s @ [(user1_id, user2_id)],
                  journal := journal s @ [W_add_chat user1_id user2_id]\<rparr>))"

text \<open>
  Two \<^verbatim>\<open>fetchone()\<close> calls: first a row with the user in the first column, and only
  when there is none a row with the user in the second column. Neither query has an
  \<^verbatim>\<open>ORDER BY\<close>. SQLite answers the first from the index of the primary key
  \<^verbatim>\<open>(user1_id, user2_id)\<close>, where the rows of one \<^verbatim>\<open>user1_id\<close> stand by \<^verbatim>\<open>user2_id\<close>: the
  row found is the one with the least \<^verbatim>\<open>user2_id\<close>. The second is a scan of the table,
  which finds the earliest inserted row.
\<close>

definition get_partner :: "int \<Rightarrow> state \<Rightarrow> int option" where
  "get_partner user_id s =
     (case map snd (filter (\<lambda>r. fst r = user_id) (chats s)) of
        p # ps \<Rightarrow> Some (fold min ps p)
      | [] \<Rightarrow>
          (case filter (\<lambda>r. snd r = user_id) (chats s) of
             r # _ \<Rightarrow> Some (fst r)
           | [] \<Rightarrow> None))"

definition remove_chat_by_users :: "int \<Rightarrow> int \<Rightarrow> state \<Rightarrow> state" where
  "remove_chat_by_users user1_id user2_id s =
     s\<lparr>chats := filter (\<lambda>r. r \<noteq> (user1_id, user2_id) \<and> r \<noteq> (user2_id, user1_id)) (chats s),
       journal := journal s @ [W_remove_chat_by_users user1_id user2_id]\<rparr>"

subsection \<open>Reports\<close>

text \<open>The default \<^verbatim>\<open>reason\<close> is the only one \<^verbatim>\<open>bot.py\<close> ever passes.\<close>

definition add_report :: "int \<Rightarrow> int \<Rightarrow> int \<Rightarrow> state \<Rightarrow> state" where
  "add_report reporter reported now s =
     s\<lparr>reports := reports s @
         [\<lparr>reporter_id = reporter, reported_id = reported,
           reason = ''No reason provided'', timestamp = now\<rparr>],
       journal := journal s @ [W_add_report reporter reported]\<rparr>"

subsection \<open>Blocks\<close>

definition block_user :: "int \<Rightarrow> state \<Rightarrow> state" where
  "block_user user_id s =
     s\<lparr>blocks := insert user_id (blocks s), journal := journal s @ [W_block_user user_id]\<rparr>"

definition unblock_user :: "int \<Rightarrow> state \<Rightarrow> state" where
  "unblock_user user_id s =
     s\<lparr>blocks := blocks s - {user_id}, journal := journal s @ [W_unblock_user user_id]\<rparr>"

definition is_blocked :: "int \<Rightarrow> state \<Rightarrow> bool" where
  "is_blocked user_id s = (user_id \<in> blocks s)"

subsection \<open>Limits\<close>

definition get_limit_info :: "int \<Rightarrow> state \<Rightarrow> limit_row" where
  "get_limit_info user_id s =
     (case limits s user_id of
        Some row \<Rightarrow> row
      | None \<Rightarrow> \<lparr>used_count = 0, reset_time = 0, premium = 0\<rparr>)"

definition update_limit :: "int \<Rightarrow> int \<Rightarrow> int \<Rightarrow> int \<Rightarrow> state \<Rightarrow> state" where
  "update_limit user_id used reset prem s =
     s\<lparr>limits := (limits s)(user_id \<mapsto> \<lparr>used_count = used, reset_time = reset, premium = prem\<rparr>),
       journal := journal s @ [W_update_limit user_id used reset prem]\<rparr>"

section \<open>bot.py\<close>

text \<open>
  What a handler sends is recorded as a list of events, oldest first. The texts are
  fixed strings of \<^verbatim>\<open>bot.py\<close>; each is a constructor of \<open>msg\<close>, with the ids that
  the source interpolates as arguments, and \<open>Relay\<close> carries a user's own text.

  \<^item> \<open>Answer\<close>: \<^verbatim>\<open>message.answer(text)\<close>, a reply to the sender of the command;
  \<^item> \<open>SendMessage\<close>: \<^verbatim>\<open>bot.send_message(chat, text)\<close>, directly or in \<^verbatim>\<open>notify_user\<close>;
  \<^item> \<open>CopyMessage\<close>: \<^verbatim>\<open>bot.copy_message(chat_id, from_chat_id, message_id)\<close>.

  An event is a call made. \<^verbatim>\<open>notify_user\<close> and the \<^verbatim>\<open>copy_message\<close> loop catch every
  exception of the transport, so a failed delivery changes nothing in what follows;
  where the source reacts to a failure (\<open>handle_text\<close>), the outcome is an argument.
  The calls the source does not guard (\<^verbatim>\<open>message.answer\<close>, \<^verbatim>\<open>bot.send_message\<close> to the
  admin) are taken to return.
\<close>

datatype msg =
    BlockedBot               \<comment> \<open>You are blocked and cannot use the bot.\<close>
  | Welcome                  \<comment> \<open>Welcome! Use /next to find a chat partner. ...\<close>
  | WaitNext                 \<comment> \<open>Please wait a few seconds before using /next again.\<close>
  | BlockedFeature           \<comment> \<open>You are blocked and cannot use this feature.\<close>
  | LimitRemoved             \<comment> \<open>You are subscribed to our channel! The limit has been completely removed.\<close>
  | LimitReached             \<comment> \<open>You have used 5 searches this hour. Subscribe to our channel ...\<close>
  | PartnerLeft              \<comment> \<open>Your partner has left the chat.\<close>
  | YouLeftSearching         \<comment> \<open>You left the chat. Searching for a new partner...\<close>
  | PartnerFound             \<comment> \<open>Partner found! Type /commands to see options.\<close>
  | AddedToQueue             \<comment> \<open>You have been added to the queue. Please wait for a partner. ...\<close>
  | PartnerEnded             \<comment> \<open>Your partner ended the chat (/stop).\<close>
  | YouEnded                 \<comment> \<open>You ended the chat. ...\<close>
  | NotInChatStop            \<comment> \<open>You are not in a chat. If you were in the queue, you have been removed. ...\<close>
  | NothingToReport          \<comment> \<open>You are not in a chat, nothing to report.\<close>
  | ReportSent               \<comment> \<open>Report sent to admin. Thank you!\<close>
  | ReportNoMessages int int \<comment> \<open>Report from r about p. No messages found.\<close>
  | ReportHeader int int     \<comment> \<open>Report from r about p. Last partner messages (up to 5):\<close>
  | ReportEnd int int        \<comment> \<open>End of report. Reporter: r, Reported: p\<close>
  | OnlyAdminBlock           \<comment> \<open>Only the admin can block users.\<close>
  | UsageBlock               \<comment> \<open>Usage: /block <user_id>\<close>
  | InvalidUserId            \<comment> \<open>Invalid user_id.\<close>
  | PartnerBlocked           \<comment> \<open>Your partner was blocked by the admin.\<close>
  | YouBlocked               \<comment> \<open>You have been blocked. You cannot use the bot.\<close>
  | UserBlocked int          \<comment> \<open>User u blocked.\<close>
  | OnlyAdminUnblock         \<comment> \<open>Only the admin can unblock users.\<close>
  | UsageUnblock             \<comment> \<open>Usage: /unblock <user_id>\<close>
  | YouUnblocked             \<comment> \<open>You have been unblocked. You can use the bot again.\<close>
  | UserUnblocked int        \<comment> \<open>User u unblocked.\<close>
  | NoPartner                \<comment> \<open>You do not have an active conversation partner. Use /next.\<close>
  | Relay string             \<comment> \<open>\<^verbatim>\<open>message.text\<close>\<close>
  | DeliveryFailed           \<comment> \<open>Failed to deliver the message.\<close>

datatype event =
    Answer msg
  | SendMessage int msg
  | CopyMessage int int int

subsection \<open>Last messages\<close>

text \<open>
  The slice \<^verbatim>\<open>lst[i:]\<close> of Python: a negative start counts from the end, and a start
  outside the list is clamped.
\<close>

definition slice_from :: "int \<Rightarrow> 'a list \<Rightarrow> 'a list" where
  "slice_from i xs =
     (let n = int (length xs);
          j = (if i < 0 then max (n + i) 0 else min i n)
      in drop (nat j) xs)"

definition push_last_message :: "int \<Rightarrow> int \<Rightarrow> int \<Rightarrow> int \<Rightarrow> state \<Rightarrow> state" where
  "push_last_message user_id chat_id message_id limit s =
     (let lst = (case last_messages s user_id of Some l \<Rightarrow> l | None \<Rightarrow> []) @ [(chat_id, message_id)];
          lst' = (if int (length lst) > limit then slice_from (- limit) lst else lst)
      in s\<lparr>last_messages := (last_messages s)(user_id \<mapsto> lst')\<rparr>)"

subsection \<open>Rate limiting\<close>

text \<open>
  \<open>now\<close> is the reading of \<^verbatim>\<open>time.time()\<close>, taken as a real number. The key
  \<^verbatim>\<open>f"{user_id}:{action}"\<close> is the pair of its two parts.
\<close>

definition is_rate_limited :: "int \<Rightarrow> string \<Rightarrow> int \<Rightarrow> real \<Rightarrow> state \<Rightarrow> bool \<times> state" where
  "is_rate_limited user_id action cooldown now s =
     (let last_time = (case last_action_time s (user_id, action) of Some t \<Rightarrow> t | None \<Rightarrow> 0)
      in if now - last_time < real_of_int cooldown then (True, s)
         else (False, s\<lparr>last_action_time := (last_action_time s)((user_id, action) \<mapsto> now)\<rparr>))"

subsection \<open>Limits settings\<close>

definition LIMIT :: int where
  "LIMIT = 5"

definition RESET_SECONDS :: int where
  "RESET_SECONDS = 3600"

subsection \<open>Commands\<close>

definition cmd_start :: "int \<Rightarrow> user_row \<Rightarrow> state \<Rightarrow> state \<times> event list" where
  "cmd_start uid profile s =
     (let s1 = add_user uid profile s
      in if is_blocked uid s1 then (s1, [Answer BlockedBot])
         else (s1, [Answer Welcome]))"

text \<open>
  \<open>cmd_next\<close>, lines 108 to 131: the quota. \<open>now\<close> is \<^verbatim>\<open>int(time.time())\<close> and
  \<open>subscribed\<close> is what \<^verbatim>\<open>is_subscribed(uid, CHANNEL)\<close> answers when it is asked. The
  first component says whether the handler goes on to the matching.
\<close>

definition cmd_next_quota :: "int \<Rightarrow> int \<Rightarrow> bool \<Rightarrow> state \<Rightarrow> bool \<times> state \<times> event list" where
  "cmd_next_quota uid now subscribed s =
     (let info = get_limit_info uid s;
          used0 = used_count info;
          reset0 = reset_time info;
          premium0 = premium info;
          used1 = (if now > reset0 then 0 else used0);
          reset1 = (if now > reset0 then now + RESET_SECONDS else reset0)
      in if premium0 = 0 \<and> used1 \<ge> LIMIT then
           (if subscribed
            then (True, update_limit uid used1 reset1 1 s, [Answer LimitRemoved])
            else (False, update_limit uid used1 reset1 premium0 s, [Answer LimitReached]))
         else
           (True, update_limit uid (if premium0 = 0 then used1 + 1 else used1) reset1 premium0 s, []))"

text \<open>
  \<open>cmd_next\<close>, lines 133 to 154: leave the current chat, then match or queue. The
  third component is the exception that ends the handler, if any; the state is the
  one committed up to there.
\<close>

definition cmd_next_match :: "int \<Rightarrow> state \<Rightarrow> state \<times> event list \<times> error option" where
  "cmd_next_match uid s =
     (let partner = get_partner uid s;
          (s1, ev1) =
            (if truthy partner
             then (remove_chat_by_users uid (the partner) s,
                   [SendMessage (the partner) PartnerLeft, Answer YouLeftSearching])
             else (s, []));
          candidate = get_first_in_queue (Some uid) s1
      in if truthy candidate then
           (let s2 = remove_from_queue (the candidate) s1
            in case add_chat uid (the candidate) s2 of
                 Inl e \<Rightarrow> (s2, ev1, Some e)
               | Inr s3 \<Rightarrow>
                   (s3, ev1 @ [SendMessage (the candidate) PartnerFound, Answer PartnerFound], None))
         else (add_to_queue uid s1, ev1 @ [Answer AddedToQueue], None))"

text \<open>\<open>t\<close> is the reading of \<^verbatim>\<open>time.time()\<close> in \<open>is_rate_limited\<close>.\<close>

definition cmd_next ::
  "int \<Rightarrow> user_row \<Rightarrow> real \<Rightarrow> int \<Rightarrow> bool \<Rightarrow> state \<Rightarrow> state \<times> event list \<times> error option" where
  "cmd_next uid profile t now subscribed s =
     (case is_rate_limited uid ''next'' 5 t s of
        (True, s1) \<Rightarrow> (s1, [Answer WaitNext], None)
      | (False, s1) \<Rightarrow>
          (let s2 = add_user uid profile s1
           in if is_blocked uid s2 then (s2, [Answer BlockedFeature], None)
              else
                (case cmd_next_quota uid now subscribed s2 of
                   (False, s3, ev) \<Rightarrow> (s3, ev, None)
                 | (True, s3, ev) \<Rightarrow>
                     (case cmd_next_match uid s3 of
                        (s4, ev', exn) \<Rightarrow> (s4, ev @ ev', exn)))))"

definition cmd_stop :: "int \<Rightarrow> state \<Rightarrow> state \<times> event list" where
  "cmd_stop uid s =
     (let partner = get_partner uid s
      in if truthy partner
         then (remove_chat_by_users uid (the partner) s,
               [SendMessage (the partner) PartnerEnded, Answer YouEnded])
         else (remove_from_queue uid s, [Answer NotInChatStop]))"

text \<open>\<open>now\<close> is \<^verbatim>\<open>int(time.time())\<close> in \<open>add_report\<close>; \<open>ADMIN_ID\<close> comes from the environment.\<close>

definition cmd_report :: "int \<Rightarrow> int \<Rightarrow> int \<Rightarrow> state \<Rightarrow> state \<times> event list" where
  "cmd_report ADMIN_ID reporter now s =
     (let partner = get_partner reporter s
      in if \<not> truthy partner then (s, [Answer NothingToReport])
         else
           (let p = the partner;
                s1 = add_report reporter p now s;
                msgs = (case last_messages s1 p of Some l \<Rightarrow> l | None \<Rightarrow> [])
            in if msgs = []
               then (s1, [Answer ReportSent, SendMessage ADMIN_ID (ReportNoMessages reporter p)])
               else (s1, [Answer ReportSent, SendMessage ADMIN_ID (ReportHeader reporter p)]
                         @ map (\<lambda>(from_chat_id, message_id). CopyMessage ADMIN_ID from_chat_id message_id) msgs
                         @ [SendMessage ADMIN_ID (ReportEnd reporter p)])))"

text \<open>
  The argument of \<^verbatim>\<open>/block\<close> and \<^verbatim>\<open>/unblock\<close>, as \<^verbatim>\<open>message.text.split()\<close> and
  \<^verbatim>\<open>int(parts[1])\<close> read it: missing, not a number, or a number.
\<close>

datatype arg = Missing | NotANumber | Number int

definition cmd_block :: "int \<Rightarrow> int \<Rightarrow> arg \<Rightarrow> state \<Rightarrow> state \<times> event list" where
  "cmd_block ADMIN_ID sender a s =
     (if sender \<noteq> ADMIN_ID then (s, [Answer OnlyAdminBlock])
      else case a of
        Missing \<Rightarrow> (s, [Answer UsageBlock])
      | NotANumber \<Rightarrow> (s, [Answer InvalidUserId])
      | Number user_id \<Rightarrow>
          (let s1 = block_user user_id s;
               partner = get_partner user_id s1;
               (s2, ev) =
                 (if truthy partner
                  then (remove_chat_by_users user_id (the partner) s1,
                        [SendMessage (the partner) PartnerBlocked])
                  else (s1, []))
           in (remove_from_queue user_id s2,
               ev @ [SendMessage user_id YouBlocked, Answer (UserBlocked user_id)])))"

definition cmd_unblock :: "int \<Rightarrow> int \<Rightarrow> arg \<Rightarrow> state \<Rightarrow> state \<times> event list" where
  "cmd_unblock ADMIN_ID sender a s =
     (if sender \<noteq> ADMIN_ID then (s, [Answer OnlyAdminUnblock])
      else case a of
        Missing \<Rightarrow> (s, [Answer UsageUnblock])
      | NotANumber \<Rightarrow> (s, [Answer InvalidUserId])
      | Number user_id \<Rightarrow>
          (unblock_user user_id s,
           [SendMessage user_id YouUnblocked, Answer (UserUnblocked user_id)]))"

subsection \<open>Forward only text\<close>

text \<open>
  \<open>delivered\<close> says whether \<^verbatim>\<open>bot.send_message(partner_id, message.text)\<close> returned
  rather than raised.
\<close>

definition handle_text :: "int \<Rightarrow> int \<Rightarrow> int \<Rightarrow> string \<Rightarrow> bool \<Rightarrow> state \<Rightarrow> state \<times> event list" where
  "handle_text uid chat_id message_id txt delivered s =
     (if is_blocked uid s then (s, [])
      else
        (let partner_id = get_partner uid s
         in if \<not> truthy partner_id then (s, [Answer NoPartner])
            else (push_last_message uid chat_id message_id 5 s,
                  SendMessage (the partner_id) (Relay txt)
                  # (if delivered then [] else [Answer DeliveryFailed]))))"

section \<open>Runs of the bot\<close>

text \<open>
  One update of the dispatcher: the sender's id (\<^verbatim>\<open>message.from_user.id\<close>) and what the
  handler reads from the message and the outside world. The handlers that only read
  (\<^verbatim>\<open>/commands\<close>, \<^verbatim>\<open>/stats\<close>, the media filter) leave the state as it is and have no
  command here.
\<close>

datatype command =
    Start int user_row
  | Next int user_row real int bool
  | Stop int
  | Report int int
  | Block int arg
  | Unblock int arg
  | Text int int int string bool

fun sender :: "command \<Rightarrow> int" where
  "sender (Start uid _) = uid"
| "sender (Next uid _ _ _ _) = uid"
| "sender (Stop uid) = uid"
| "sender (Report uid _) = uid"
| "sender (Block uid _) = uid"
| "sender (Unblock uid _) = uid"
| "sender (Text uid _ _ _ _) = uid"

text \<open>
  The state after one update. An exception that leaves \<open>cmd_next\<close> is logged by the
  dispatcher; the statements committed before it stay.
\<close>

fun step :: "int \<Rightarrow> state \<Rightarrow> command \<Rightarrow> state" where
  "step ADMIN_ID s (Start uid profile) = fst (cmd_start uid profile s)"
| "step ADMIN_ID s (Next uid profile t now subscribed) = fst (cmd_next uid profile t now subscribed s)"
| "step ADMIN_ID s (Stop uid) = fst (cmd_stop uid s)"
| "step ADMIN_ID s (Report uid now) = fst (cmd_report ADMIN_ID uid now s)"
| "step ADMIN_ID s (Block uid a) = fst (cmd_block ADMIN_ID uid a s)"
| "step ADMIN_ID s (Unblock uid a) = fst (cmd_unblock ADMIN_ID uid a s)"
| "step ADMIN_ID s (Text uid chat_id message_id txt delivered) =
     fst (handle_text uid chat_id message_id txt delivered s)"

text \<open>The updates are handled one after the other, the first of the list first.\<close>

definition run :: "int \<Rightarrow> state \<Rightarrow> command list \<Rightarrow> state" where
  "run ADMIN_ID s cs = foldl (step ADMIN_ID) s cs"

section \<open>Notions used in the statements\<close>

text \<open>
  The user ids that occur in the rows of \<^verbatim>\<open>chats\<close>, both columns, row by row. A user
  is in a pairing when the id is in this list.
\<close>

definition members :: "state \<Rightarrow> int list" where
  "members s = concat (map (\<lambda>r. [fst r, snd r]) (chats s))"

text \<open>Inputs for the examples: a profile, and two states with one quota row.\<close>

definition anon :: user_row where
  "anon = \<lparr>username = None, first_name = ''anon'', last_name = None\<rparr>"

definition over_quota :: state where
  "over_quota = init_state\<lparr>limits := [7 \<mapsto> \<lparr>used_count = 5, reset_time = 2000, premium = 0\<rparr>]\<rparr>"


text \<open>
  The window of a sender: \<^verbatim>\<open>last_messages.get(user_id, [])\<close>. A text message as the
  handler reads it is the chat id, the message id, the text, and whether the relay
  to the partner was delivered; \<open>text_of\<close> is the update it makes when \<open>x\<close> sends it,
  \<open>ref_of\<close> the reference kept of it.
\<close>

type_synonym sent = "int \<times> int \<times> string \<times> bool"

definition window :: "int \<Rightarrow> state \<Rightarrow> (int \<times> int) list" where
  "window u s = (case last_messages s u of Some l \<Rightarrow> l | None \<Rightarrow> [])"

fun text_of :: "int \<Rightarrow> sent \<Rightarrow> command" where
  "text_of x (chat_id, message_id, txt, delivered) = Text x chat_id message_id txt delivered"

fun ref_of :: "sent \<Rightarrow> int \<times> int" where
  "ref_of (chat_id, message_id, txt, delivered) = (chat_id, message_id)"


text \<open>Inputs for the examples: users 1 and 2 in a chat, and seven messages.\<close>

definition in_chat :: state where
  "in_chat = init_state\<lparr>chats := [(1, 2)]\<rparr>"

definition seven :: "sent list" where
  "seven = [(10, 101, ''a'', True), (10, 102, ''b'', True), (10, 103, ''c'', True),
            (10, 104, ''d'', False), (10, 105, ''e'', True), (10, 106, ''f'', True),
            (10, 107, ''g'', True)]"

text \<open>
  The invariant of the runs of the bot (senders are never 0): no id occurs twice in
  the rows of \<^verbatim>\<open>chats\<close>, the id 0 is in no row and not queued, at most one user is
  queued, and no queued user is in a row.
\<close>

definition queue_inv :: "state \<Rightarrow> bool" where
  "queue_inv s =
     (distinct (members s) \<and> 0 \<notin> set (members s) \<and> 0 \<notin> set (queue s) \<and>
      length (queue s) \<le> 1 \<and> set (members s) \<inter> set (queue s) = {})"


text \<open>Input for the examples: three users send \<^verbatim>\<open>/next\<close> one after the other.\<close>

definition three_requests :: "command list" where
  "three_requests = [Next 1 anon 100 100 False, Next 2 anon 101 101 False, Next 3 anon 102 102 False]"

text \<open>
  Inputs for the examples: a queue that users 30, 10 and 20 joined in this order, and
  a state in which user 5 is blocked.
\<close>

definition three_waiting :: state where
  "three_waiting = init_state\<lparr>queue := [30, 10, 20]\<rparr>"

definition blocked_five :: state where
  "blocked_five = init_state\<lparr>blocks := {5}\<rparr>"

section \<open>The queue\<close>

lemma first_by_rowid_None: "first_by_rowid xs = None \<longleftrightarrow> xs = []"
  by (cases xs) simp_all



text \<open>
  C9. Enqueueing a user who is in the queue already is a no-op on the tables: the
  statement is committed (the journal grows) and nothing else changes. The queue has
  the same entries in the same arrival order, so the user is neither duplicated nor
  moved, and every later \<open>get_first_in_queue\<close> answers as before.
\<close>

theorem add_to_queue_idempotent:
  "user_id \<in> set (queue s) \<Longrightarrow>
     add_to_queue user_id s = s\<lparr>journal := journal s @ [W_add_to_queue user_id]\<rparr> \<and>
     queue (add_to_queue user_id s) = queue s \<and>
     get_first_in_queue e (add_to_queue user_id s) = get_first_in_queue e s"
  by (simp add: add_to_queue_def get_first_in_queue_def)

theorem add_to_queue_idempotent_witness:
  "7 \<in> set (queue (init_state\<lparr>queue := [7, 3]\<rparr>)) \<and>
   queue (add_to_queue 7 (init_state\<lparr>queue := [7, 3]\<rparr>)) = [7, 3] \<and>
   get_first_in_queue (Some 9) (add_to_queue 7 (init_state\<lparr>queue := [7, 3]\<rparr>)) = Some 3"
  using add_to_queue_idempotent [of 7 "init_state\<lparr>queue := [7, 3]\<rparr>" "Some 9"]
  by (simp add: init_state_def get_first_in_queue_def)



section \<open>Reports\<close>

lemma get_partner_None:
  assumes "u \<notin> set (members s)"
  shows "get_partner u s = None"
proof -
  from assms have "\<forall>r \<in> set (chats s). fst r \<noteq> u \<and> snd r \<noteq> u"
    by (auto simp: members_def)
  then have "filter (\<lambda>r. fst r = u) (chats s) = [] \<and> filter (\<lambda>r. snd r = u) (chats s) = []"
    by (auto simp: filter_empty_conv)
  then show ?thesis by (simp add: get_partner_def)
qed

text \<open>
  C8. A report by a user who is in no pairing is answered with "You are not in a
  chat, nothing to report." and that is all: the state returned is the state given,
  so no row is added to \<^verbatim>\<open>reports\<close>, nothing is committed, and nothing is sent to the
  admin.
\<close>

theorem report_without_partner:
  "reporter \<notin> set (members s) \<Longrightarrow>
     cmd_report ADMIN_ID reporter now s = (s, [Answer NothingToReport])"
  by (simp add: cmd_report_def get_partner_None)

theorem report_without_partner_witness:
  "3 \<notin> set (members (init_state\<lparr>chats := [(1, 2)]\<rparr>)) \<and>
   cmd_report 99 3 1000 (init_state\<lparr>chats := [(1, 2)]\<rparr>) =
     (init_state\<lparr>chats := [(1, 2)]\<rparr>, [Answer NothingToReport])"
  using report_without_partner [of 3 "init_state\<lparr>chats := [(1, 2)]\<rparr>" 99 1000]
  by (simp add: members_def init_state_def)

section \<open>The quota\<close>

lemma limits_cmd_next_match: "limits (fst (cmd_next_match uid s)) = limits s"
  by (simp add: cmd_next_match_def Let_def remove_chat_by_users_def remove_from_queue_def
      add_chat_def add_to_queue_def split: prod.splits sum.splits)

lemma events_cmd_next_match: "Answer LimitReached \<notin> set (fst (snd (cmd_next_match uid s)))"
  by (auto simp add: cmd_next_match_def Let_def split: prod.splits sum.splits if_splits)

text \<open>
  What \<open>cmd_next\<close> does once the request has passed the rate limiter and the block
  guard: the quota on the state with the new stamp and the upserted profile, then,
  if the quota allows it, the matching.
\<close>

lemma cmd_next_passed:
  assumes "\<not> fst (is_rate_limited uid ''next'' 5 t s)" "\<not> is_blocked uid s"
  shows "cmd_next uid profile t now subscribed s =
     (let q = cmd_next_quota uid now subscribed
                (add_user uid profile (s\<lparr>last_action_time := (last_action_time s)((uid, ''next'') \<mapsto> t)\<rparr>));
          m = cmd_next_match uid (fst (snd q))
      in if fst q then (fst m, snd (snd q) @ fst (snd m), snd (snd m))
         else (fst (snd q), snd (snd q), None))"
  using assms
  by (simp add: cmd_next_def is_rate_limited_def Let_def is_blocked_def add_user_def
      split: if_splits prod.splits bool.splits)

text \<open>
  C3. A user whose stored quota row is \<open>used_count = 5\<close>, \<open>reset_time = T\<close>,
  \<open>premium = 0\<close> sends \<^verbatim>\<open>/next\<close> at \<open>now \<le> T\<close>, and the subscription check fails. The
  request is denied (the only event is the "limit reached" answer and the handler
  returns before the matching: queue and chats are as before), the stored row is the
  same, and \<open>update_limit\<close> is committed all the same: it is the last statement of
  the journal, after the profile upsert.
\<close>

theorem quota_deny_but_persist:
  assumes "\<not> fst (is_rate_limited uid ''next'' 5 t s)" and "\<not> is_blocked uid s"
    and "limits s uid = Some \<lparr>used_count = 5, reset_time = T, premium = 0\<rparr>" and "now \<le> T"
  shows "snd (cmd_next uid profile t now False s) = ([Answer LimitReached], None) \<and>
         limits (fst (cmd_next uid profile t now False s)) uid =
           Some \<lparr>used_count = 5, reset_time = T, premium = 0\<rparr> \<and>
         limits (fst (cmd_next uid profile t now False s)) = limits s \<and>
         journal (fst (cmd_next uid profile t now False s)) =
           journal s @ [W_add_user uid, W_update_limit uid 5 T 0] \<and>
         queue (fst (cmd_next uid profile t now False s)) = queue s \<and>
         chats (fst (cmd_next uid profile t now False s)) = chats s"
proof -
  have "(limits s)(uid \<mapsto> \<lparr>used_count = 5, reset_time = T, premium = 0\<rparr>) = limits s"
    using assms(3) by (simp add: map_upd_triv)
  then show ?thesis
    using assms
    by (simp add: cmd_next_passed cmd_next_quota_def get_limit_info_def add_user_def
        update_limit_def LIMIT_def Let_def)
qed

theorem quota_deny_but_persist_witness:
  "snd (cmd_next 7 anon 1500 1500 False over_quota) = ([Answer LimitReached], None) \<and>
   limits (fst (cmd_next 7 anon 1500 1500 False over_quota)) 7 =
     Some \<lparr>used_count = 5, reset_time = 2000, premium = 0\<rparr> \<and>
   journal (fst (cmd_next 7 anon 1500 1500 False over_quota)) =
     [W_add_user 7, W_update_limit 7 5 2000 0]"
  using quota_deny_but_persist [of 7 1500 over_quota 2000 1500 anon]
  by (simp add: over_quota_def init_state_def is_rate_limited_def is_blocked_def)

text \<open>
  C4. A user whose stored quota row is \<open>used_count = 5\<close>, \<open>reset_time = T\<close>,
  \<open>premium = 0\<close> sends \<^verbatim>\<open>/next\<close> at \<open>now > T\<close>: the request is not denied, and the row
  stored afterwards counts the new window only, \<open>used_count = 1\<close> with
  \<open>reset_time = now + 3600\<close>. The same holds for a user with no stored row, whose
  defaults are zero, zero and not premium.
\<close>

theorem quota_rollover:
  assumes "\<not> fst (is_rate_limited uid ''next'' 5 t s)" and "\<not> is_blocked uid s"
  shows "(limits s uid = Some \<lparr>used_count = 5, reset_time = T, premium = 0\<rparr> \<and> now > T \<longrightarrow>
            limits (fst (cmd_next uid profile t now subscribed s)) uid =
              Some \<lparr>used_count = 1, reset_time = now + 3600, premium = 0\<rparr> \<and>
            Answer LimitReached \<notin> set (fst (snd (cmd_next uid profile t now subscribed s)))) \<and>
         (limits s uid = None \<and> now > 0 \<longrightarrow>
            limits (fst (cmd_next uid profile t now subscribed s)) uid =
              Some \<lparr>used_count = 1, reset_time = now + 3600, premium = 0\<rparr> \<and>
            Answer LimitReached \<notin> set (fst (snd (cmd_next uid profile t now subscribed s))))"
  using assms
  by (auto simp add: cmd_next_passed cmd_next_quota_def get_limit_info_def add_user_def
      update_limit_def LIMIT_def RESET_SECONDS_def Let_def limits_cmd_next_match events_cmd_next_match)


theorem quota_rollover_witness:
  "limits (fst (cmd_next 7 anon 2001 2001 False over_quota)) 7 =
     Some \<lparr>used_count = 1, reset_time = 5601, premium = 0\<rparr> \<and>
   Answer LimitReached \<notin> set (fst (snd (cmd_next 7 anon 2001 2001 False over_quota))) \<and>
   limits (fst (cmd_next 8 anon 2001 2001 False over_quota)) 8 =
     Some \<lparr>used_count = 1, reset_time = 5601, premium = 0\<rparr>"
  using quota_rollover [of 7 2001 over_quota 2000 2001 anon False]
    quota_rollover [of 8 2001 over_quota 0 2001 anon False]
  by (simp add: over_quota_def init_state_def is_rate_limited_def is_blocked_def)









section \<open>The window of recent messages\<close>

lemma slice_from_last5: "slice_from (- 5) xs = drop (length xs - 5) xs"
proof -
  have "nat (int (length xs) - 5) = length xs - 5" by simp
  then show ?thesis by (simp add: slice_from_def Let_def max_def)
qed

lemma last_messages_push:
  "last_messages (push_last_message u c m 5 s) u =
     Some (drop (length (window u s @ [(c, m)]) - 5) (window u s @ [(c, m)]))"
  by (simp add: push_last_message_def window_def Let_def slice_from_last5)

lemma window_push:
  "window u (push_last_message u c m 5 s) =
     drop (length (window u s @ [(c, m)]) - 5) (window u s @ [(c, m)])"
  by (simp add: window_def [of u "push_last_message u c m 5 s"] last_messages_push)

lemma last5_append:
  "drop (length (drop (length a - 5) a @ b) - 5) (drop (length a - 5) a @ b) =
   drop (length (a @ b) - 5) (a @ (b :: 'a list))"
  by (cases "length a \<le> 5") (auto simp add: add.commute)

lemma handle_text_relayed:
  assumes "\<not> is_blocked x s" "truthy (get_partner x s)"
  shows "fst (handle_text x c m txt d s) = push_last_message x c m 5 s"
  using assms by (simp add: handle_text_def Let_def)

lemma get_partner_cong: "chats s' = chats s \<Longrightarrow> get_partner v s' = get_partner v s"
  by (simp add: get_partner_def cong: list.case_cong)

lemma push_keeps:
  "chats (push_last_message u c m l s) = chats s"
  "get_partner v (push_last_message u c m l s) = get_partner v s"
  "is_blocked v (push_last_message u c m l s) = is_blocked v s"
proof -
  show c: "chats (push_last_message u c m l s) = chats s"
    by (simp add: push_last_message_def Let_def)
  show "get_partner v (push_last_message u c m l s) = get_partner v s"
    by (rule get_partner_cong [OF c])
  show "is_blocked v (push_last_message u c m l s) = is_blocked v s"
    by (simp add: push_last_message_def Let_def is_blocked_def)
qed

lemma seven_texts:
  assumes "\<not> is_blocked x s" "truthy (get_partner x s)"
  shows "ms \<noteq> [] \<Longrightarrow>
     last_messages (run A s (map (text_of x) ms)) x =
       Some (drop (length (window x s @ map ref_of ms) - 5) (window x s @ map ref_of ms)) \<and>
     chats (run A s (map (text_of x) ms)) = chats s"
  using assms
proof (induction ms arbitrary: s)
  case Nil
  then show ?case by simp
next
  case (Cons a ms)
  obtain c m tx d where a: "a = (c, m, tx, d)" by (cases a) auto
  let ?s1 = "push_last_message x c m 5 s"
  have st: "run A s (map (text_of x) (a # ms)) = run A ?s1 (map (text_of x) ms)"
    using Cons.prems by (simp add: run_def a handle_text_relayed)
  show ?case
  proof (cases "ms = []")
    case True
    then show ?thesis
      using st by (simp add: run_def a last_messages_push push_keeps)
  next
    case False
    have "\<not> is_blocked x ?s1" "truthy (get_partner x ?s1)"
      using Cons.prems by (simp_all add: push_keeps)
    from Cons.IH [OF False this] show ?thesis
      using st last5_append [of "window x s @ [(c, m)]" "map ref_of ms"]
      by (simp add: window_push a push_keeps)
  qed
qed


lemma cmd_report_events:
  assumes "get_partner r s = Some x" "x \<noteq> 0"
  shows "snd (cmd_report A r now s) =
     (if window x s = [] then [Answer ReportSent, SendMessage A (ReportNoMessages r x)]
      else [Answer ReportSent, SendMessage A (ReportHeader r x)]
           @ map (\<lambda>(c, m). CopyMessage A c m) (window x s)
           @ [SendMessage A (ReportEnd r x)])"
  using assms by (simp add: cmd_report_def Let_def window_def add_report_def)

text \<open>
  C7. A user \<open>x\<close> who is not blocked and has a partner sends seven text messages.
  Afterwards the window of \<open>x\<close> holds the references of the last five, oldest first,
  whatever it held before. A report by a user whose partner is \<open>x\<close> then sends the
  admin a header, a copy of each of these five in that order, and a closing line.
  When the window of the reported user is empty, the admin gets the "No messages
  found" notice and nothing is copied. A report names \<open>x\<close> when the partner that
  \<open>cmd_report\<close> reads is \<open>x\<close> and passes its truth test, that is, when \<open>x\<close> is not
  0; for a partner 0 the handler answers "nothing to report".
\<close>

theorem recent_message_window:
  "(\<not> is_blocked x s \<and> truthy (get_partner x s) \<and> length ms = 7 \<longrightarrow>
      last_messages (run A s (map (text_of x) ms)) x = Some (drop 2 (map ref_of ms)) \<and>
      (get_partner r s = Some x \<and> x \<noteq> 0 \<longrightarrow>
         snd (cmd_report A r now (run A s (map (text_of x) ms))) =
           [Answer ReportSent, SendMessage A (ReportHeader r x)]
           @ map (\<lambda>(c, m). CopyMessage A c m) (drop 2 (map ref_of ms))
           @ [SendMessage A (ReportEnd r x)])) \<and>
   (get_partner r s = Some x \<and> x \<noteq> 0 \<and> window x s = [] \<longrightarrow>
      snd (cmd_report A r now s) = [Answer ReportSent, SendMessage A (ReportNoMessages r x)])"
proof (intro conjI impI)
  assume h: "\<not> is_blocked x s \<and> truthy (get_partner x s) \<and> length ms = 7"
  then have ne: "ms \<noteq> []" by auto
  from h have b: "\<not> is_blocked x s" and p: "truthy (get_partner x s)" and l: "length ms = 7"
    by simp_all
  have "length (window x s @ map ref_of ms) - 5 = length (window x s) + 2"
    using l by simp
  then have d: "drop (length (window x s @ map ref_of ms) - 5) (window x s @ map ref_of ms) =
      drop 2 (map ref_of ms)"
    by simp
  from seven_texts [OF b p ne, of A] d
  show w: "last_messages (run A s (map (text_of x) ms)) x = Some (drop 2 (map ref_of ms))"
    by simp
  assume rp: "get_partner r s = Some x \<and> x \<noteq> 0"
  have c: "chats (run A s (map (text_of x) ms)) = chats s"
    using seven_texts [OF b p ne, of A] by simp
  have g: "get_partner r (run A s (map (text_of x) ms)) = Some x"
    using rp by (simp add: get_partner_cong [OF c])
  have "drop 2 (map ref_of ms) \<noteq> []"
    using l by simp
  then show "snd (cmd_report A r now (run A s (map (text_of x) ms))) =
           [Answer ReportSent, SendMessage A (ReportHeader r x)]
           @ map (\<lambda>(c, m). CopyMessage A c m) (drop 2 (map ref_of ms))
           @ [SendMessage A (ReportEnd r x)]"
    using rp w by (simp add: cmd_report_events [OF g] window_def)
next
  assume "get_partner r s = Some x \<and> x \<noteq> 0 \<and> window x s = []"
  then show "snd (cmd_report A r now s) = [Answer ReportSent, SendMessage A (ReportNoMessages r x)]"
    by (simp add: cmd_report_events)
qed

theorem recent_message_window_witness:
  "last_messages (run 99 in_chat (map (text_of 1) seven)) 1 =
     Some [(10, 103), (10, 104), (10, 105), (10, 106), (10, 107)] \<and>
   snd (cmd_report 99 2 5000 (run 99 in_chat (map (text_of 1) seven))) =
     [Answer ReportSent, SendMessage 99 (ReportHeader 2 1),
      CopyMessage 99 10 103, CopyMessage 99 10 104, CopyMessage 99 10 105,
      CopyMessage 99 10 106, CopyMessage 99 10 107,
      SendMessage 99 (ReportEnd 2 1)] \<and>
   snd (cmd_report 99 2 5000 in_chat) = [Answer ReportSent, SendMessage 99 (ReportNoMessages 2 1)]"
  using recent_message_window [of 1 in_chat seven 99 2 5000]
  by (simp add: in_chat_def seven_def init_state_def is_blocked_def get_partner_def window_def)

section \<open>Pairings and the queue\<close>

lemma members_Nil: "chats s = [] \<Longrightarrow> members s = []"
  by (simp add: members_def)

lemma in_members: "u \<in> set (members s) \<longleftrightarrow> (\<exists>r \<in> set (chats s). fst r = u \<or> snd r = u)"
  by (auto simp add: members_def)

lemma members_cong: "chats s' = chats s \<Longrightarrow> members s' = members s"
  by (simp add: members_def)

lemma queue_inv_cong: "queue s' = queue s \<Longrightarrow> chats s' = chats s \<Longrightarrow> queue_inv s' = queue_inv s"
  by (simp add: queue_inv_def members_def)

lemma distinct_rows_filter:
  "distinct (concat (map (\<lambda>r. [fst r, snd r]) cs)) \<Longrightarrow>
   distinct (concat (map (\<lambda>r. [fst r, snd r]) (filter P cs)))"
  by (induction cs) auto

lemma in_rows:
  "u \<in> set (concat (map (\<lambda>r. [fst r, snd r]) cs)) \<longleftrightarrow> (\<exists>r \<in> set cs. fst r = u \<or> snd r = u)"
  by auto

lemma distinct_rows_disjoint:
  "distinct (concat (map (\<lambda>r. [fst r, snd r]) cs)) \<Longrightarrow> r \<in> set cs \<Longrightarrow> r' \<in> set cs \<Longrightarrow>
   r \<noteq> r' \<Longrightarrow> fst r \<noteq> fst r' \<and> fst r \<noteq> snd r' \<and> snd r \<noteq> fst r' \<and> snd r \<noteq> snd r'"
proof (induction cs)
  case Nil
  then show ?case by simp
next
  case (Cons a cs)
  let ?rows = "concat (map (\<lambda>r. [fst r, snd r]) cs)"
  from Cons.prems(1) have d: "distinct ?rows" and a1: "fst a \<notin> set ?rows" and a2: "snd a \<notin> set ?rows"
    by simp_all
  have out: "\<And>x. x \<in> set cs \<Longrightarrow> fst x \<noteq> fst a \<and> fst x \<noteq> snd a \<and> snd x \<noteq> fst a \<and> snd x \<noteq> snd a"
    using a1 a2 unfolding in_rows by metis
  show ?case
  proof (cases "r = a")
    case True
    with Cons.prems have "r' \<in> set cs" by auto
    from out [OF this] True show ?thesis by metis
  next
    case False
    with Cons.prems have r: "r \<in> set cs" by auto
    show ?thesis
    proof (cases "r' = a")
      case True
      from out [OF r] True show ?thesis by metis
    next
      case False
      with Cons.prems have "r' \<in> set cs" by auto
      from Cons.IH [OF d r this Cons.prems(4)] show ?thesis .
    qed
  qed
qed

lemma members_filter: "chats s' = filter P (chats s) \<Longrightarrow> set (members s') \<subseteq> set (members s)"
proof
  fix u
  assume c: "chats s' = filter P (chats s)" and "u \<in> set (members s')"
  then obtain r where "r \<in> set (chats s')" and u: "fst r = u \<or> snd r = u"
    unfolding in_members by blast
  with c have "r \<in> set (chats s)" by simp
  with u show "u \<in> set (members s)"
    unfolding in_members by blast
qed

lemma queue_inv_shrink:
  assumes "queue_inv s" "chats s' = filter P (chats s)" "queue s' = filter Q (queue s)"
  shows "queue_inv s'"
proof -
  have d: "distinct (members s')"
    using assms(1,2) by (simp add: queue_inv_def members_def distinct_rows_filter)
  have m: "set (members s') \<subseteq> set (members s)"
    using assms(2) by (rule members_filter)
  have q: "set (queue s') \<subseteq> set (queue s)"
    using assms(3) by simp
  have l: "length (queue s') \<le> 1"
    using assms(1,3) le_trans [OF length_filter_le [of Q "queue s"], of 1] by (simp add: queue_inv_def)
  from assms(1) have "0 \<notin> set (members s)" "0 \<notin> set (queue s)"
    "set (members s) \<inter> set (queue s) = {}"
    by (simp_all add: queue_inv_def)
  with m q have "0 \<notin> set (members s')" "0 \<notin> set (queue s')"
    "set (members s') \<inter> set (queue s') = {}"
    by blast+
  with d l show ?thesis
    by (simp add: queue_inv_def)
qed

lemma get_partner_Some:
  assumes "get_partner u s = Some p"
  shows "(u, p) \<in> set (chats s) \<or> (p, u) \<in> set (chats s)"
proof (cases "map snd (filter (\<lambda>r. fst r = u) (chats s))")
  case (Cons q qs)
  have "fold min qs q = Min (set (q # qs))"
    by (simp only: Min.set_eq_fold)
  moreover have "Min (set (q # qs)) \<in> set (q # qs)"
    by (rule Min_in) simp_all
  moreover have "p = fold min qs q"
    using assms Cons by (simp add: get_partner_def)
  ultimately have "p \<in> set (map snd (filter (\<lambda>r. fst r = u) (chats s)))"
    using Cons by simp
  then obtain r where r: "r \<in> set (chats s)" "fst r = u" "snd r = p"
    by auto
  from r(2,3) have "r = (u, p)"
    by auto
  with r(1) have "(u, p) \<in> set (chats s)"
    by simp
  then show ?thesis ..
next
  case Nil
  show ?thesis
  proof (cases "filter (\<lambda>r. snd r = u) (chats s)")
    case (Cons r rs)
    then have "r \<in> set (filter (\<lambda>r. snd r = u) (chats s))" by simp
    moreover have "fst r = p" using assms Nil Cons by (simp add: get_partner_def)
    ultimately show ?thesis by auto
  next
    case Nil2: Nil
    with Nil assms show ?thesis by (simp add: get_partner_def)
  qed
qed

lemma get_partner_None_iff: "get_partner u s = None \<longleftrightarrow> u \<notin> set (members s)"
proof
  assume n: "get_partner u s = None"
  then have "filter (\<lambda>r. fst r = u) (chats s) = []" "filter (\<lambda>r. snd r = u) (chats s) = []"
    by (auto simp add: get_partner_def split: list.splits)
  then show "u \<notin> set (members s)"
    by (auto simp add: in_members filter_empty_conv)
next
  assume "u \<notin> set (members s)"
  then show "get_partner u s = None" by (rule get_partner_None)
qed

lemma row_unique:
  assumes "distinct (members s)" "r \<in> set (chats s)" "(a, b) \<in> set (chats s)" "r \<noteq> (a, b)"
  shows "fst r \<noteq> a \<and> fst r \<noteq> b \<and> snd r \<noteq> a \<and> snd r \<noteq> b"
  using distinct_rows_disjoint [OF assms(1) [unfolded members_def] assms(2,3,4)] by simp

lemma left_chat:
  assumes "distinct (members s)" "(u, p) \<in> set (chats s) \<or> (p, u) \<in> set (chats s)"
  shows "u \<notin> set (members (remove_chat_by_users u p s))"
proof
  assume "u \<in> set (members (remove_chat_by_users u p s))"
  then obtain r where "r \<in> set (chats (remove_chat_by_users u p s))" and r4: "fst r = u \<or> snd r = u"
    unfolding in_members by blast
  then have r: "r \<in> set (chats s)" "r \<noteq> (u, p)" "r \<noteq> (p, u)"
    by (simp_all add: remove_chat_by_users_def)
  from assms(2) show False
  proof
    assume "(u, p) \<in> set (chats s)"
    from row_unique [OF assms(1) r(1) this r(2)] r4 show False by simp
  next
    assume "(p, u) \<in> set (chats s)"
    from row_unique [OF assms(1) r(1) this r(3)] r4 show False by simp
  qed
qed


lemma queue_inv_init: "queue_inv init_state"
  by (simp add: queue_inv_def init_state_def members_def)

lemma queue_inv_leave:
  assumes "queue_inv s"
  shows "queue_inv (remove_chat_by_users u p s)"
  by (rule queue_inv_shrink [OF assms, where P = "\<lambda>r. r \<noteq> (u, p) \<and> r \<noteq> (p, u)" and Q = "\<lambda>x. True"])
     (simp_all add: remove_chat_by_users_def)

lemma queue_inv_remove_from_queue:
  assumes "queue_inv s"
  shows "queue_inv (remove_from_queue u s)"
  by (rule queue_inv_shrink [OF assms, where P = "\<lambda>r. True" and Q = "\<lambda>x. u \<noteq> x"])
     (simp_all add: remove_from_queue_def removeAll_filter_not_eq)

lemma truthy_partner:
  assumes "queue_inv s" "get_partner u s = Some p"
  shows "truthy (get_partner u s)"
proof -
  from get_partner_Some [OF assms(2)] have "p \<in> set (members s)"
    unfolding in_members by force
  with assms(1) have "p \<noteq> 0" unfolding queue_inv_def by metis
  with assms(2) show ?thesis by simp
qed

text \<open>The state in which \<open>cmd_next_match\<close> looks for a candidate.\<close>

lemma left_state:
  fixes u :: int and s :: state
  assumes "queue_inv s"
  defines "s1 \<equiv> (if truthy (get_partner u s) then remove_chat_by_users u (the (get_partner u s)) s else s)"
  shows "queue_inv s1 \<and> queue s1 = queue s \<and> u \<notin> set (members s1)"
proof (cases "get_partner u s")
  case None
  then have "u \<notin> set (members s)" by (simp add: get_partner_None_iff)
  with None assms show ?thesis by simp
next
  case (Some p)
  from truthy_partner [OF assms(1) Some] have s1: "s1 = remove_chat_by_users u p s"
    by (simp add: s1_def Some)
  have "u \<notin> set (members s1)"
    unfolding s1 using assms(1) get_partner_Some [OF Some]
    by (intro left_chat) (simp_all add: queue_inv_def)
  moreover have "queue s1 = queue s"
    by (simp add: s1 remove_chat_by_users_def)
  ultimately show ?thesis
    using queue_inv_leave [OF assms(1), of u p] by (simp add: s1)
qed

lemma fst_cmd_next_match:
  "fst (cmd_next_match uid s) =
     (let s1 = (if truthy (get_partner uid s)
                then remove_chat_by_users uid (the (get_partner uid s)) s else s);
          candidate = get_first_in_queue (Some uid) s1
      in if truthy candidate
         then (case add_chat uid (the candidate) (remove_from_queue (the candidate) s1) of
                 Inl e \<Rightarrow> remove_from_queue (the candidate) s1
               | Inr s3 \<Rightarrow> s3)
         else add_to_queue uid s1)"
  by (simp add: cmd_next_match_def Let_def split: sum.splits)

lemma queue_inv_matched:
  assumes "queue_inv s1" "uid \<noteq> 0" "uid \<notin> set (members s1)"
  shows "queue_inv
     (let candidate = get_first_in_queue (Some uid) s1
      in if truthy candidate
         then (case add_chat uid (the candidate) (remove_from_queue (the candidate) s1) of
                 Inl e \<Rightarrow> remove_from_queue (the candidate) s1
               | Inr s3 \<Rightarrow> s3)
         else add_to_queue uid s1)"
proof -
  from assms(1) have len: "length (queue s1) \<le> 1" by (simp add: queue_inv_def)
  then consider "queue s1 = []" | q where "queue s1 = [q]"
    by (cases "queue s1") (auto simp add: length_Suc_conv)
  then show ?thesis
  proof cases
    case 1
    then show ?thesis
      using assms by (simp add: get_first_in_queue_def add_to_queue_def queue_inv_def members_def)
  next
    case 2
    show ?thesis
    proof (cases "q = uid")
      case True
      with 2 show ?thesis
        using assms by (simp add: get_first_in_queue_def add_to_queue_def queue_inv_def members_def)
    next
      case False
      from assms(1) 2 have q0: "q \<noteq> 0" and qm: "q \<notin> set (members s1)" and d: "distinct (members s1)"
        and z: "0 \<notin> set (members s1)"
        by (auto simp add: queue_inv_def)
      have cand: "get_first_in_queue (Some uid) s1 = Some q"
        using 2 False assms(2) by (simp add: get_first_in_queue_def)
      have nin: "(uid, q) \<notin> set (chats s1)"
        using assms(3) unfolding in_members by force
      have "queue_inv (s1\<lparr>queue := [], journal := journal s1 @ [W_remove_from_queue q],
              chats := chats s1 @ [(uid, q)],
              journal := journal s1 @ [W_remove_from_queue q] @ [W_add_chat uid q]\<rparr>)"
        using d z qm q0 assms(2,3) False
        by (simp add: queue_inv_def members_def)
      then show ?thesis
        using cand q0 nin 2 by (simp add: add_chat_def remove_from_queue_def)
    qed
  qed
qed

lemma queue_inv_cmd_next_match:
  assumes "queue_inv s" "uid \<noteq> 0"
  shows "queue_inv (fst (cmd_next_match uid s))"
proof -
  let ?s1 = "if truthy (get_partner uid s) then remove_chat_by_users uid (the (get_partner uid s)) s else s"
  from left_state [OF assms(1), of uid] have "queue_inv ?s1" "uid \<notin> set (members ?s1)"
    by simp_all
  from queue_inv_matched [OF this(1) assms(2) this(2)] show ?thesis
    unfolding fst_cmd_next_match Let_def .
qed


lemma queue_inv_frame:
  "queue_inv (add_user u p s) = queue_inv s"
  "queue_inv (update_limit u a b c s) = queue_inv s"
  "queue_inv (s\<lparr>last_action_time := x\<rparr>) = queue_inv s"
  "queue_inv (add_report r q now s) = queue_inv s"
  "queue_inv (block_user u s) = queue_inv s"
  "queue_inv (unblock_user u s) = queue_inv s"
  "queue_inv (push_last_message u ch m l s) = queue_inv s"
  by (rule queue_inv_cong;
      simp add: add_user_def update_limit_def add_report_def block_user_def unblock_user_def
        push_last_message_def Let_def)+

lemma queue_inv_cmd_next_quota:
  "queue_inv (fst (snd (cmd_next_quota uid now subscribed s))) = queue_inv s"
  by (simp add: cmd_next_quota_def Let_def queue_inv_frame)

lemma queue_inv_cmd_next:
  assumes "queue_inv s" "uid \<noteq> 0"
  shows "queue_inv (fst (cmd_next uid profile t now subscribed s))"
proof -
  obtain lim s1 where r: "is_rate_limited uid ''next'' 5 t s = (lim, s1)"
    by (cases "is_rate_limited uid ''next'' 5 t s") auto
  then have i1: "queue_inv s1"
    using assms(1) by (auto simp add: is_rate_limited_def Let_def queue_inv_frame split: if_splits)
  let ?s2 = "add_user uid profile s1"
  obtain ok s3 ev where q: "cmd_next_quota uid now subscribed ?s2 = (ok, s3, ev)"
    by (cases "cmd_next_quota uid now subscribed ?s2") auto
  have i3: "queue_inv s3"
    using queue_inv_cmd_next_quota [of uid now subscribed ?s2] i1 q
    by (simp add: queue_inv_frame)
  have i4: "queue_inv (fst (cmd_next_match uid s3))"
    by (rule queue_inv_cmd_next_match [OF i3 assms(2)])
  show ?thesis
    using i1 i3 i4
    by (cases lim; cases ok)
       (auto simp add: cmd_next_def r q Let_def queue_inv_frame split: prod.splits)
qed

lemma queue_inv_cmd_stop:
  assumes "queue_inv s"
  shows "queue_inv (fst (cmd_stop uid s))"
  using queue_inv_leave [OF assms] queue_inv_remove_from_queue [OF assms]
  by (simp add: cmd_stop_def Let_def)

lemma queue_inv_cmd_block:
  assumes "queue_inv s"
  shows "queue_inv (fst (cmd_block A uid a s))"
proof (cases a)
  case (Number v)
  let ?s1 = "block_user v s"
  have i1: "queue_inv ?s1" using assms by (simp add: queue_inv_frame)
  show ?thesis
    using queue_inv_remove_from_queue [OF queue_inv_leave [OF i1]] queue_inv_remove_from_queue [OF i1] assms
    by (simp add: cmd_block_def Number Let_def split: prod.splits)
qed (simp_all add: cmd_block_def assms)

lemma queue_inv_step:
  assumes "queue_inv s" "sender c \<noteq> 0"
  shows "queue_inv (step A s c)"
proof (cases c)
  case (Next uid profile t now subscribed)
  with assms show ?thesis by (simp add: queue_inv_cmd_next)
next
  case (Stop uid)
  with assms show ?thesis by (simp add: queue_inv_cmd_stop)
next
  case (Block uid a)
  with assms show ?thesis by (simp add: queue_inv_cmd_block)
next
  case (Start uid profile)
  with assms show ?thesis by (simp add: cmd_start_def Let_def queue_inv_frame)
next
  case (Report uid now)
  with assms show ?thesis by (simp add: cmd_report_def Let_def queue_inv_frame)
next
  case (Unblock uid a)
  with assms show ?thesis by (simp add: cmd_unblock_def queue_inv_frame split: arg.splits)
next
  case (Text uid ch m tx d)
  with assms show ?thesis by (simp add: handle_text_def Let_def queue_inv_frame)
qed

lemma queue_inv_run:
  "queue_inv s \<Longrightarrow> \<forall>c \<in> set cs. sender c \<noteq> 0 \<Longrightarrow> queue_inv (run A s cs)"
  unfolding run_def by (induction cs arbitrary: s) (simp_all add: queue_inv_step)

lemma one_row_each:
  "distinct (concat (map (\<lambda>r. [fst r, snd r]) cs)) \<Longrightarrow>
   length (filter (\<lambda>r. fst r = u \<or> snd r = u) cs) \<le> 1"
proof (induction cs)
  case Nil
  then show ?case by simp
next
  case (Cons a cs)
  show ?case
  proof (cases "fst a = u \<or> snd a = u")
    case True
    with Cons.prems have "u \<notin> set (concat (map (\<lambda>r. [fst r, snd r]) cs))"
      by auto
    then have "filter (\<lambda>r. fst r = u \<or> snd r = u) cs = []"
      unfolding in_rows filter_empty_conv by blast
    with True show ?thesis by simp
  next
    case False
    with Cons show ?thesis by simp
  qed
qed


lemmas eval_defs =
  run_def anon_def init_state_def cmd_next_def is_rate_limited_def add_user_def
  is_blocked_def cmd_next_quota_def get_limit_info_def update_limit_def LIMIT_def RESET_SECONDS_def
  cmd_next_match_def get_partner_def get_first_in_queue_def remove_from_queue_def add_chat_def
  add_to_queue_def remove_chat_by_users_def cmd_stop_def Let_def members_def

text \<open>
  C1. The sender of an update is a Telegram user, whose id is never 0 (the handlers
  themselves read 0 as "no user" in their truth tests of \<^verbatim>\<open>partner\<close> and \<^verbatim>\<open>candidate\<close>,
  as \<^verbatim>\<open>bot.py\<close> reads an \<^verbatim>\<open>ADMIN_ID\<close> of 0 as unset). In every state reached from the
  empty database by a run of updates, every user is in at most one row of \<^verbatim>\<open>chats\<close>,
  and a user in a row is not queued; and when \<open>cmd_next\<close> leaves such a state with a
  row (requester, candidate), neither of the two is queued.
\<close>

theorem pairing_invariant:
  assumes "\<forall>c \<in> set cs. sender c \<noteq> 0"
  shows "length (filter (\<lambda>r. fst r = u \<or> snd r = u) (chats (run A init_state cs))) \<le> 1 \<and>
         (u \<in> set (members (run A init_state cs)) \<longrightarrow> u \<notin> set (queue (run A init_state cs))) \<and>
         (uid \<noteq> 0 \<and>
          (uid, c) \<in> set (chats (fst (cmd_next uid profile t now subscribed (run A init_state cs)))) \<longrightarrow>
            uid \<notin> set (queue (fst (cmd_next uid profile t now subscribed (run A init_state cs)))) \<and>
            c \<notin> set (queue (fst (cmd_next uid profile t now subscribed (run A init_state cs)))))"
proof (intro conjI impI)
  let ?s = "run A init_state cs"
  have i: "queue_inv ?s"
    by (rule queue_inv_run [OF queue_inv_init assms])
  then show "length (filter (\<lambda>r. fst r = u \<or> snd r = u) (chats ?s)) \<le> 1"
    by (intro one_row_each) (simp add: queue_inv_def members_def)
  {
    assume "u \<in> set (members ?s)"
    with i show "u \<notin> set (queue ?s)"
      unfolding queue_inv_def by blast
  }
  let ?s' = "fst (cmd_next uid profile t now subscribed ?s)"
  assume h: "uid \<noteq> 0 \<and> (uid, c) \<in> set (chats ?s')"
  then have i': "queue_inv ?s'"
    using queue_inv_cmd_next [OF i] by simp
  from h have "uid \<in> set (members ?s')" "c \<in> set (members ?s')"
    unfolding in_members by force+
  with i' show "uid \<notin> set (queue ?s')" "c \<notin> set (queue ?s')"
    unfolding queue_inv_def by blast+
qed

theorem pairing_invariant_witness:
  "chats (run 99 init_state three_requests) = [(2, 1)] \<and>
   queue (run 99 init_state three_requests) = [3] \<and>
   length (filter (\<lambda>r. fst r = 1 \<or> snd r = 1) (chats (run 99 init_state three_requests))) \<le> 1 \<and>
   1 \<notin> set (queue (run 99 init_state three_requests)) \<and>
   (4, 3) \<in> set (chats (fst (cmd_next 4 anon 200 200 False (run 99 init_state three_requests)))) \<and>
   4 \<notin> set (queue (fst (cmd_next 4 anon 200 200 False (run 99 init_state three_requests)))) \<and>
   3 \<notin> set (queue (fst (cmd_next 4 anon 200 200 False (run 99 init_state three_requests))))"
proof -
  have s: "\<forall>c \<in> set three_requests. sender c \<noteq> 0"
    by (simp add: three_requests_def)
  have c: "chats (run 99 init_state three_requests) = [(2, 1)]"
    and q: "queue (run 99 init_state three_requests) = [3]"
    by (simp_all add: three_requests_def eval_defs)
  have n: "(4, 3) \<in> set (chats (fst (cmd_next 4 anon 200 200 False (run 99 init_state three_requests))))"
    by (simp add: three_requests_def eval_defs)
  from pairing_invariant [OF s, of 1 99 4 3 anon 200 200 False] c q n
  show ?thesis by (simp add: members_def)
qed

section \<open>The order of the queue\<close>

text \<open>
  C2. The claim is first in, first out: with arrivals a, b, c and a request from d,
  the candidate is a. Users 30, 10 and 20 join the queue in this order and user 40
  sends \<^verbatim>\<open>/next\<close>: \<open>get_first_in_queue\<close> returns 10, the least id, since the rowid that
  the query orders by is the \<^verbatim>\<open>user_id\<close> column itself; user 40 is paired with user 10,
  and users 30 and 20 stay queued.
\<close>

theorem fifo_failing_input:
  "queue (add_to_queue 20 (add_to_queue 10 (add_to_queue 30 init_state))) = queue three_waiting \<and>
   get_first_in_queue (Some 40) three_waiting = Some 10 \<and>
   chats (fst (cmd_next 40 anon 100 100 False three_waiting)) = [(40, 10)] \<and>
   queue (fst (cmd_next 40 anon 100 100 False three_waiting)) = [30, 20]"
  by (simp add: three_waiting_def add_to_queue_def eval_defs)

section \<open>Blocked users\<close>

text \<open>
  C6, as stated: every entry point consults the block set first, tells a blocked
  user so, and changes nothing else. For the blocked user 5: a text message is
  dropped without any answer; \<^verbatim>\<open>/stop\<close> and \<^verbatim>\<open>/report\<close> answer as for any user with no
  partner, and \<^verbatim>\<open>/stop\<close> commits its delete on the queue; \<^verbatim>\<open>/start\<close> and \<^verbatim>\<open>/next\<close> store the
  profile before they look at the block set, and \<^verbatim>\<open>/next\<close> stamps the rate limiter.
\<close>

theorem blocked_guard_counterexample:
  "is_blocked 5 blocked_five \<and>
   handle_text 5 10 101 ''hi'' True blocked_five = (blocked_five, []) \<and>
   snd (cmd_stop 5 blocked_five) = [Answer NotInChatStop] \<and>
   journal (fst (cmd_stop 5 blocked_five)) = [W_remove_from_queue 5] \<and>
   snd (cmd_report 99 5 1000 blocked_five) = [Answer NothingToReport] \<and>
   users blocked_five 5 = None \<and>
   users (fst (cmd_start 5 anon blocked_five)) 5 = Some anon \<and>
   users (fst (cmd_next 5 anon 100 100 False blocked_five)) 5 = Some anon \<and>
   last_action_time (fst (cmd_next 5 anon 100 100 False blocked_five)) (5, ''next'') = Some 100"
  by (simp add: blocked_five_def eval_defs handle_text_def cmd_report_def cmd_start_def)

text \<open>
  C6, amended. For a blocked user: \<^verbatim>\<open>/start\<close> upserts the profile and answers "You are
  blocked and cannot use the bot."; \<^verbatim>\<open>/next\<close> is first rate limited (then it answers
  "please wait" and changes nothing), otherwise it stamps the rate limiter, upserts
  the profile and answers "You are blocked and cannot use this feature."; neither
  touches quota, queue or pairings. A text message is dropped: no state change and no
  event. \<^verbatim>\<open>/stop\<close> and \<^verbatim>\<open>/report\<close> do not read the block set: \<^verbatim>\<open>/stop\<close> ends the chat or
  deletes the user from the queue as for anyone, and both give the same events and
  the same changes whatever the block set is.
\<close>

theorem blocked_user_guard:
  assumes "is_blocked uid s"
  shows "cmd_start uid profile s = (add_user uid profile s, [Answer BlockedBot]) \<and>
     cmd_next uid profile t now subscribed s =
       (if fst (is_rate_limited uid ''next'' 5 t s) then (s, [Answer WaitNext], None)
        else (add_user uid profile
                (s\<lparr>last_action_time := (last_action_time s)((uid, ''next'') \<mapsto> t)\<rparr>),
              [Answer BlockedFeature], None)) \<and>
     handle_text uid chat_id message_id body delivered s = (s, []) \<and>
     cmd_stop uid s =
       (if truthy (get_partner uid s)
        then (remove_chat_by_users uid (the (get_partner uid s)) s,
              [SendMessage (the (get_partner uid s)) PartnerEnded, Answer YouEnded])
        else (remove_from_queue uid s, [Answer NotInChatStop])) \<and>
     cmd_stop uid (s\<lparr>blocks := B\<rparr>) = (fst (cmd_stop uid s)\<lparr>blocks := B\<rparr>, snd (cmd_stop uid s)) \<and>
     cmd_report ADMIN_ID uid now (s\<lparr>blocks := B\<rparr>) =
       (fst (cmd_report ADMIN_ID uid now s)\<lparr>blocks := B\<rparr>, snd (cmd_report ADMIN_ID uid now s))"
proof (intro conjI)
  show "cmd_start uid profile s = (add_user uid profile s, [Answer BlockedBot])"
    using assms by (simp add: cmd_start_def Let_def is_blocked_def add_user_def)
  show "cmd_next uid profile t now subscribed s =
       (if fst (is_rate_limited uid ''next'' 5 t s) then (s, [Answer WaitNext], None)
        else (add_user uid profile
                (s\<lparr>last_action_time := (last_action_time s)((uid, ''next'') \<mapsto> t)\<rparr>),
              [Answer BlockedFeature], None))"
    using assms by (simp add: cmd_next_def is_rate_limited_def Let_def is_blocked_def add_user_def)
  show "handle_text uid chat_id message_id body delivered s = (s, [])"
    using assms by (simp add: handle_text_def)
  show "cmd_stop uid s =
       (if truthy (get_partner uid s)
        then (remove_chat_by_users uid (the (get_partner uid s)) s,
              [SendMessage (the (get_partner uid s)) PartnerEnded, Answer YouEnded])
        else (remove_from_queue uid s, [Answer NotInChatStop]))"
    by (simp add: cmd_stop_def Let_def)
  have g: "get_partner uid (s\<lparr>blocks := B\<rparr>) = get_partner uid s"
    by (rule get_partner_cong) simp
  show "cmd_stop uid (s\<lparr>blocks := B\<rparr>) = (fst (cmd_stop uid s)\<lparr>blocks := B\<rparr>, snd (cmd_stop uid s))"
    by (simp add: cmd_stop_def Let_def g remove_chat_by_users_def remove_from_queue_def)
  show "cmd_report ADMIN_ID uid now (s\<lparr>blocks := B\<rparr>) =
       (fst (cmd_report ADMIN_ID uid now s)\<lparr>blocks := B\<rparr>, snd (cmd_report ADMIN_ID uid now s))"
    by (simp add: cmd_report_def Let_def g add_report_def)
qed

theorem blocked_user_guard_witness:
  "cmd_start 5 anon blocked_five = (add_user 5 anon blocked_five, [Answer BlockedBot]) \<and>
   snd (cmd_next 5 anon 100 100 False blocked_five) = ([Answer BlockedFeature], None) \<and>
   queue (fst (cmd_next 5 anon 100 100 False blocked_five)) = [] \<and>
   limits (fst (cmd_next 5 anon 100 100 False blocked_five)) 5 = None \<and>
   handle_text 5 10 101 ''hi'' True blocked_five = (blocked_five, []) \<and>
   snd (cmd_stop 5 blocked_five) = [Answer NotInChatStop]"
  using blocked_user_guard [of 5 blocked_five anon 100 100 False 10 101 "''hi''" True "{}" 99]
  by (simp add: blocked_five_def init_state_def is_blocked_def is_rate_limited_def add_user_def
      get_partner_def)

end
